theory Spec2Isabelle
  imports Complex_Main "HOL-Library.Char_ord" "HOL-Library.List_Lexorder"
begin

section \<open>Data model (src/types/index.ts)\<close>

text \<open>
  The string unions of the TypeScript source become datatypes. \<open>ServiceType\<close> is
  \<^verbatim>\<open>'walk' | 'sitter'\<close>, \<open>OperationType\<close> is \<^verbatim>\<open>'walk' | 'full_day' | 'partial'\<close> and
  \<open>ScheduleStatus\<close> is \<^verbatim>\<open>'scheduled' | 'completed' | 'cancelled' | 'not_done'\<close>.
\<close>

datatype ServiceType = Walk_Service | Sitter

datatype OperationType = Walk | Full_day | Partial

datatype ScheduleStatus = Scheduled | Completed | Cancelled | Not_done

text \<open>\<^verbatim>\<open>OPERATION_WEIGHTS\<close>: walk 1, full\_day 2, partial 1.\<close>

fun OPERATION_WEIGHTS :: "OperationType \<Rightarrow> int" where
  "OPERATION_WEIGHTS Walk = 1"
| "OPERATION_WEIGHTS Full_day = 2"
| "OPERATION_WEIGHTS Partial = 1"

text \<open>
  A Firestore \<open>Timestamp\<close> is a point in time; only equality and nullness of timestamps
  are used by the ledger, so a timestamp is an integer. Credits are JavaScript numbers
  that only ever hold integers (they start at 0 and move by the integer weights).
\<close>

type_synonym timestamp = int

text \<open>
  The fields of \<open>Pack\<close> that the ledger reads or writes. The payment and date fields of
  the interface are never touched by the functions below.
\<close>

record Pack =
  pack_clientId :: string
  serviceType :: ServiceType
  totalCredits :: int
  usedCredits :: int
  isActive :: bool

text \<open>\<open>Omit<Operation, 'id'>\<close>: the document written to the operations collection.\<close>

record Operation =
  op_packId :: string
  op_clientId :: string
  op_date :: timestamp
  op_type :: OperationType
  weight :: int

text \<open>
  \<open>ScheduledService\<close>. \<open>packId\<close> is optional (\<open>None\<close> is JavaScript's null or
  undefined); \<open>completedAt\<close> is \<open>Timestamp | null\<close>. The notes and the extra flag of
  the interface are not read by the transitions.
\<close>

record ScheduledService =
  svc_id :: string
  svc_clientId :: string
  packId :: "string option"
  scheduledDate :: timestamp
  scheduledTime :: string
  svc_type :: OperationType
  status :: ScheduleStatus
  completedAt :: "timestamp option"

section \<open>The document store\<close>

text \<open>
  The three Firestore collections. Packs and scheduled services are only read and
  updated by document id, so they are maps. Operations are queried by field, so the
  collection is an association list of document id and data, in creation order.
  Operation ids are Firestore auto-ids; they are modelled as natural numbers.
\<close>

record store =
  packs :: "string \<rightharpoonup> Pack"
  operations :: "(nat \<times> Operation) list"
  scheduledServices :: "string \<rightharpoonup> ScheduledService"

text \<open>
  The errors the hooks throw: \<open>PackNotFound\<close> is \<^verbatim>\<open>Error('Pacote nao encontrado')\<close>,
  \<open>InsufficientCredits\<close> is \<^verbatim>\<open>Error('Creditos insuficientes no pacote')\<close>,
  \<open>UpdateFailed\<close> is \<^verbatim>\<open>Error('Erro ao atualizar agendamento')\<close> and
  \<open>CommitFailed\<close> is the error of Firestore itself when a transaction cannot commit
  (an update of a document that does not exist).
\<close>

datatype error = PackNotFound | InsufficientCredits | UpdateFailed | CommitFailed

text \<open>
  The writes a transaction buffers. \<open>UpdatePack\<close> carries the new \<open>usedCredits\<close> and,
  when the object literal has the key, the new \<open>isActive\<close>. \<open>UpdateService\<close> carries the
  new status and, when the key is present, the new \<open>completedAt\<close>.
\<close>

datatype tx_write =
    UpdatePack string int "bool option"
  | SetOperation nat Operation
  | DeleteOperation nat
  | UpdateService string ScheduleStatus "timestamp option option"

fun apply_write :: "tx_write \<Rightarrow> store \<Rightarrow> store option" where
  "apply_write (UpdatePack pid u a) st =
     (case packs st pid of
        None \<Rightarrow> None
      | Some p \<Rightarrow>
          Some (st\<lparr>packs := (packs st)(pid \<mapsto>
                  p\<lparr>usedCredits := u,
                    isActive := (case a of None \<Rightarrow> isActive p | Some b \<Rightarrow> b)\<rparr>)\<rparr>))"
| "apply_write (SetOperation i d) st =
     Some (st\<lparr>operations := filter (\<lambda>e. fst e \<noteq> i) (operations st) @ [(i, d)]\<rparr>)"
| "apply_write (DeleteOperation i) st =
     Some (st\<lparr>operations := filter (\<lambda>e. fst e \<noteq> i) (operations st)\<rparr>)"
| "apply_write (UpdateService sid s c) st =
     (case scheduledServices st sid of
        None \<Rightarrow> None
      | Some v \<Rightarrow>
          Some (st\<lparr>scheduledServices := (scheduledServices st)(sid \<mapsto>
                  v\<lparr>status := s,
                    completedAt := (case c of None \<Rightarrow> completedAt v | Some t \<Rightarrow> t)\<rparr>)\<rparr>))"

fun commit :: "tx_write list \<Rightarrow> store \<Rightarrow> store option" where
  "commit [] st = Some st"
| "commit (w # ws) st =
     (case apply_write w st of None \<Rightarrow> None | Some st' \<Rightarrow> commit ws st')"

text \<open>
  \<open>runTransaction\<close>: the body reads the store and either throws or returns the writes it
  buffered; the writes are applied together at commit, and nothing is written when the
  body throws or the commit fails. The result is the error thrown, if any, and the store
  afterwards. Calls are sequential here: contention and retries are outside the model.
\<close>

definition runTransaction :: "(store \<Rightarrow> error + tx_write list) \<Rightarrow> store \<Rightarrow> error option \<times> store" where
  "runTransaction body st =
     (case body st of
        Inl e \<Rightarrow> (Some e, st)
      | Inr ws \<Rightarrow>
          (case commit ws st of
             None \<Rightarrow> (Some CommitFailed, st)
           | Some st' \<Rightarrow> (None, st')))"

text \<open>\<open>doc(collection(db, OPERATIONS))\<close>: a reference with an id no document has yet.\<close>

definition fresh_id :: "(nat \<times> Operation) list \<Rightarrow> nat" where
  "fresh_id ops = Suc (fold max (map fst ops) 0)"

section \<open>The ledger and the booking transitions (src/hooks/usePacks.ts)\<close>

text \<open>\<open>registerOperation\<close>, with \<open>Timestamp.now()\<close> passed in as \<open>now\<close>.\<close>

definition registerOperation :: "timestamp \<Rightarrow> string \<Rightarrow> string \<Rightarrow> OperationType \<Rightarrow> store \<Rightarrow> error option \<times> store" where
  "registerOperation now pid cid operationType st =
     (let w = OPERATION_WEIGHTS operationType in
      runTransaction (\<lambda>s.
        case packs s pid of
          None \<Rightarrow> Inl PackNotFound
        | Some packData \<Rightarrow>
            (let newUsedCredits = usedCredits packData + w in
             if newUsedCredits > totalCredits packData then Inl InsufficientCredits
             else Inr
               [UpdatePack pid newUsedCredits
                  (if newUsedCredits \<ge> totalCredits packData then Some False else None),
                SetOperation (fresh_id (operations s))
                  \<lparr>op_packId = pid, op_clientId = cid, op_date = now,
                   op_type = operationType, weight = w\<rparr>])) st)"

text \<open>
  \<open>updateScheduledService\<close> as the transitions call it: \<open>updateDoc\<close> of the status and,
  when given, of \<open>completedAt\<close>; any failure is rethrown as \<open>UpdateFailed\<close>.
\<close>

definition updateScheduledService :: "string \<Rightarrow> ScheduleStatus \<Rightarrow> timestamp option option \<Rightarrow> store \<Rightarrow> error option \<times> store" where
  "updateScheduledService sid s c st =
     (case apply_write (UpdateService sid s c) st of
        None \<Rightarrow> (Some UpdateFailed, st)
      | Some st' \<Rightarrow> (None, st'))"

text \<open>\<open>if (service.packId)\<close>: the id is neither null nor the empty string.\<close>

fun linkedPack :: "ScheduledService \<Rightarrow> string option" where
  "linkedPack service =
     (case packId service of
        None \<Rightarrow> None
      | Some pid \<Rightarrow> if pid = [] then None else Some pid)"

definition completeService :: "timestamp \<Rightarrow> ScheduledService \<Rightarrow> store \<Rightarrow> error option \<times> store" where
  "completeService now service st =
     (let w = OPERATION_WEIGHTS (svc_type service) in
      case linkedPack service of
        Some pid \<Rightarrow>
          runTransaction (\<lambda>s.
            case packs s pid of
              None \<Rightarrow> Inl PackNotFound
            | Some packData \<Rightarrow>
                (let newUsedCredits = usedCredits packData + w in
                 if newUsedCredits > totalCredits packData then Inl InsufficientCredits
                 else Inr
                   [UpdatePack pid newUsedCredits
                      (if newUsedCredits \<ge> totalCredits packData then Some False else None),
                    SetOperation (fresh_id (operations s))
                      \<lparr>op_packId = pid, op_clientId = svc_clientId service,
                       op_date = scheduledDate service, op_type = svc_type service,
                       weight = w\<rparr>,
                    UpdateService (svc_id service) Completed (Some (Some now))])) st
      | None \<Rightarrow> updateScheduledService (svc_id service) Completed (Some (Some now)) st)"

definition markAsNotDone :: "string \<Rightarrow> store \<Rightarrow> error option \<times> store" where
  "markAsNotDone sid st = updateScheduledService sid Not_done None st"

definition cancelService :: "string \<Rightarrow> store \<Rightarrow> error option \<times> store" where
  "cancelService sid st = updateScheduledService sid Cancelled None st"

text \<open>
  The query of \<open>revertServiceStatus\<close>: the operations whose \<open>packId\<close>, \<open>clientId\<close> and
  \<open>date\<close> equal the service's pack, client and scheduled date.
\<close>

definition matchesService :: "string \<Rightarrow> ScheduledService \<Rightarrow> Operation \<Rightarrow> bool" where
  "matchesService pid service d \<longleftrightarrow>
     op_packId d = pid \<and> op_clientId d = svc_clientId service \<and> op_date d = scheduledDate service"

definition operationsQuery :: "string \<Rightarrow> ScheduledService \<Rightarrow> (nat \<times> Operation) list \<Rightarrow> (nat \<times> Operation) list" where
  "operationsQuery pid service ops = filter (\<lambda>e. matchesService pid service (snd e)) ops"

definition revertServiceStatus :: "ScheduledService \<Rightarrow> store \<Rightarrow> error option \<times> store" where
  "revertServiceStatus service st =
     (let w = OPERATION_WEIGHTS (svc_type service) in
      case (if status service = Completed then linkedPack service else None) of
        Some pid \<Rightarrow>
          runTransaction (\<lambda>s.
            case packs s pid of
              None \<Rightarrow> Inl PackNotFound
            | Some packData \<Rightarrow>
                (let newUsedCredits = max 0 (usedCredits packData - w) in
                 Inr (map (\<lambda>e. DeleteOperation (fst e)) (operationsQuery pid service (operations s))
                      @ [UpdatePack pid newUsedCredits (Some True),
                         UpdateService (svc_id service) Scheduled (Some None)]))) st
      | None \<Rightarrow> updateScheduledService (svc_id service) Scheduled (Some None) st)"

text \<open>
  The listener of \<open>useSchedule\<close> keeps only the services that are scheduled, completed
  or not done in \<open>allServices\<close>, the list every screen picks its services from.
\<close>

definition activeServices :: "ScheduledService list \<Rightarrow> ScheduledService list" where
  "activeServices servicesData =
     filter (\<lambda>s. status s = Scheduled \<or> status s = Completed \<or> status s = Not_done) servicesData"

section \<open>Creating a pack\<close>

text \<open>
  The \<open>totalCredits\<close> that \<open>handleSubmit\<close> of \<open>PackForm\<close> submits: 9999 for a sitter
  pack, the form's choice for a walk pack.
\<close>

definition handleSubmit_totalCredits :: "ServiceType \<Rightarrow> int \<Rightarrow> int" where
  "handleSubmit_totalCredits formServiceType formTotalCredits =
     (if formServiceType = Sitter then 9999 else formTotalCredits)"

section \<open>The slot grid\<close>

text \<open>
  \<open>TIME_SLOTS\<close>, the catalog of half-hour slots, in the order of the source. Each entry
  has the slot's code (\<open>value\<close> in the source) and its short label; the long label is
  display text only.
\<close>

record TimeSlot =
  slot_value :: string
  slot_label :: string

definition TIME_SLOTS :: "TimeSlot list" where
  "TIME_SLOTS =
     [\<lparr>slot_value = ''06:50-07:20'', slot_label = ''06h50''\<rparr>,
      \<lparr>slot_value = ''07:30-08:00'', slot_label = ''07h30''\<rparr>,
      \<lparr>slot_value = ''08:00-08:30'', slot_label = ''08h00''\<rparr>,
      \<lparr>slot_value = ''09:00-09:30'', slot_label = ''09h00''\<rparr>,
      \<lparr>slot_value = ''09:30-10:00'', slot_label = ''09h30''\<rparr>,
      \<lparr>slot_value = ''10:30-11:00'', slot_label = ''10h30''\<rparr>,
      \<lparr>slot_value = ''11:00-11:30'', slot_label = ''11h00''\<rparr>,
      \<lparr>slot_value = ''14:30-15:00'', slot_label = ''14h30''\<rparr>,
      \<lparr>slot_value = ''15:00-15:30'', slot_label = ''15h00''\<rparr>,
      \<lparr>slot_value = ''16:00-16:30'', slot_label = ''16h00''\<rparr>,
      \<lparr>slot_value = ''16:30-17:00'', slot_label = ''16h30''\<rparr>,
      \<lparr>slot_value = ''17:30-18:00'', slot_label = ''17h30''\<rparr>,
      \<lparr>slot_value = ''18:00-18:30'', slot_label = ''18h00''\<rparr>]"

text \<open>\<open>Array.prototype.findIndex\<close>; \<open>None\<close> is the source's \<open>-1\<close>.\<close>

fun findIndex :: "('a \<Rightarrow> bool) \<Rightarrow> 'a list \<Rightarrow> nat option" where
  "findIndex P [] = None"
| "findIndex P (x # xs) =
     (if P x then Some 0 else map_option Suc (findIndex P xs))"

text \<open>\<open>Math.ceil(duration / 30)\<close>, for a duration in whole minutes.\<close>

definition slotsNeeded :: "nat \<Rightarrow> nat" where
  "slotsNeeded duration = nat \<lceil>real duration / 30\<rceil>"

text \<open>
  The \<open>for\<close> loop of \<open>getOccupiedSlots\<close>: \<open>i\<close> is the loop counter and \<open>slots\<close> the
  array being filled.
\<close>

function occupiedLoop :: "TimeSlot list \<Rightarrow> nat \<Rightarrow> nat \<Rightarrow> nat \<Rightarrow> string list \<Rightarrow> string list" where
  "occupiedLoop catalog startIndex needed i slots =
     (if i < needed \<and> startIndex + i < length catalog
      then occupiedLoop catalog startIndex needed (Suc i)
             (slots @ [slot_value (catalog ! (startIndex + i))])
      else slots)"
  by pat_completeness auto
termination
  by (relation "measure (\<lambda>(catalog, startIndex, needed, i, slots). length catalog - (startIndex + i))") auto

declare occupiedLoop.simps [simp del]

definition getOccupiedSlots :: "string \<Rightarrow> nat \<Rightarrow> string list" where
  "getOccupiedSlots startSlot duration =
     (case findIndex (\<lambda>s. slot_value s = startSlot) TIME_SLOTS of
        None \<Rightarrow> [startSlot]
      | Some startIndex \<Rightarrow> occupiedLoop TIME_SLOTS startIndex (slotsNeeded duration) 0 [])"

section \<open>The recurrence expander\<close>

text \<open>
  The form keeps its two dates as the values of date inputs: the empty string or
  \<open>YYYY-MM-DD\<close>. \<open>splitOn\<close> is \<open>String.prototype.split\<close> with a one-character separator.
  \<open>Number\<close> is modelled on the strings such a value splits into, strings of decimal
  digits (the empty string is 0); \<open>None\<close> stands for \<open>NaN\<close>.
\<close>

fun splitOn :: "char \<Rightarrow> string \<Rightarrow> string list" where
  "splitOn sep [] = [[]]"
| "splitOn sep (c # cs) =
     (if c = sep then [] # splitOn sep cs
      else (case splitOn sep cs of
              [] \<Rightarrow> [[c]]
            | part # parts \<Rightarrow> (c # part) # parts))"

definition isDigit :: "char \<Rightarrow> bool" where
  "isDigit c \<longleftrightarrow> CHR ''0'' \<le> c \<and> c \<le> CHR ''9''"

fun digitsValue :: "int \<Rightarrow> string \<Rightarrow> int option" where
  "digitsValue acc [] = Some acc"
| "digitsValue acc (c # cs) =
     (if isDigit c then digitsValue (10 * acc + (of_char c - 48)) cs else None)"

definition Number :: "string \<Rightarrow> int option" where
  "Number s = digitsValue 0 s"

text \<open>
  \<open>const [year, month, day] = s.split('-').map(Number)\<close>: the first three fields.
  \<open>None\<close> when one of them is missing or \<open>NaN\<close>, which makes the date built from them
  an invalid date.
\<close>

definition parseFields :: "string \<Rightarrow> (int \<times> int \<times> int) option" where
  "parseFields s =
     (case map Number (splitOn CHR ''-'' s) of
        Some y # Some m # Some d # rest \<Rightarrow> Some (y, m, d)
      | _ \<Rightarrow> None)"

text \<open>
  A JavaScript \<open>Date\<close> is its time value, the milliseconds since 1970-01-01 00:00 of the
  single local calendar the system assumes (no daylight saving shifts). \<open>MakeDay\<close> is the
  day number, counted from 1970-01-01 in the Gregorian calendar, of a year, a month index
  counted from 0 and a day of the month, months and days out of range carrying over as in
  ECMAScript. \<open>newDate\<close> is the constructor
  \<open>new Date(year, monthIndex, date, hours, minutes, seconds)\<close>, which reads a year from
  0 to 99 as 1900 plus that year.
\<close>

type_synonym Date = int

definition msPerDay :: int where
  "msPerDay = 86400000"

definition MakeDay :: "int \<Rightarrow> int \<Rightarrow> int \<Rightarrow> int" where
  "MakeDay year monthIndex date =
     (let ym = year + monthIndex div 12;
          mn = monthIndex mod 12;
          y = (if mn < 2 then ym - 1 else ym);
          era = y div 400;
          yoe = y mod 400;
          doy = (153 * (if mn < 2 then mn + 10 else mn - 2) + 2) div 5;
          doe = yoe * 365 + yoe div 4 - yoe div 100 + doy
      in era * 146097 + doe - 719468 + (date - 1))"

definition newDate :: "int \<Rightarrow> int \<Rightarrow> int \<Rightarrow> int \<Rightarrow> int \<Rightarrow> int \<Rightarrow> Date" where
  "newDate year monthIndex date hours minutes seconds =
     (let yr = (if 0 \<le> year \<and> year \<le> 99 then 1900 + year else year)
      in MakeDay yr monthIndex date * msPerDay
         + ((hours * 60 + minutes) * 60 + seconds) * 1000)"

text \<open>\<open>getDay\<close>: 0 is Sunday; 1970-01-01 was a Thursday.\<close>

definition getDay :: "Date \<Rightarrow> int" where
  "getDay t = (t div msPerDay + 4) mod 7"

text \<open>
  \<open>atNoon d\<close> is \<open>new Date(d.getFullYear(), d.getMonth(), d.getDate(), 12, 0, 0)\<close>, the
  same calendar day at 12:00:00, and \<open>nextDay d\<close> is the date after
  \<open>d.setDate(d.getDate() + 1)\<close>, the same time on the next calendar day. The dates of
  the loop are built by \<open>newDate\<close> from a year that is not negative, so they are never
  in the years 0 to 99, which the constructor would read as 1900 to 1999.
\<close>

definition atNoon :: "Date \<Rightarrow> Date" where
  "atNoon t = (t div msPerDay) * msPerDay + ((12 * 60 + 0) * 60 + 0) * 1000"

definition nextDay :: "Date \<Rightarrow> Date" where
  "nextDay t = t + msPerDay"

text \<open>The \<open>while\<close> loop of \<open>generateRecurringDates\<close>.\<close>

function recurringLoop :: "int list \<Rightarrow> Date \<Rightarrow> Date \<Rightarrow> Date list \<Rightarrow> Date list" where
  "recurringLoop selectedWeekdays currentDate endDate dates =
     (if currentDate \<le> endDate
      then recurringLoop selectedWeekdays (nextDay currentDate) endDate
             (if getDay currentDate \<in> set selectedWeekdays
              then dates @ [atNoon currentDate] else dates)
      else dates)"
  by pat_completeness auto
termination
  by (relation "measure (\<lambda>(selectedWeekdays, currentDate, endDate, dates). nat (endDate + 1 - currentDate))")
     (auto simp: nextDay_def msPerDay_def)

declare recurringLoop.simps [simp del]

text \<open>
  The state of \<open>ScheduleForm\<close>: the form data and the recurrence fields. Weekdays are
  numbers from 0 (Sunday) to 6 (Saturday).
\<close>

record ScheduleForm =
  form_clientId :: string
  form_scheduledDate :: string
  form_scheduledTime :: string
  form_duration :: nat
  form_type :: OperationType
  form_notes :: string
  form_isExtra :: bool
  isRecurring :: bool
  selectedWeekdays :: "int list"
  recurrenceEndDate :: string

text \<open>
  \<open>generateRecurringDates\<close>. A comparison with an invalid date is false, so the loop
  does not run when a date does not parse.
\<close>

definition generateRecurringDates :: "ScheduleForm \<Rightarrow> Date list" where
  "generateRecurringDates form =
     (case (parseFields (form_scheduledDate form), parseFields (recurrenceEndDate form)) of
        (Some (startYear, startMonth, startDay), Some (endYear, endMonth, endDay)) \<Rightarrow>
          recurringLoop (selectedWeekdays form)
            (newDate startYear (startMonth - 1) startDay 0 0 0)
            (newDate endYear (endMonth - 1) endDay 0 0 0) []
      | _ \<Rightarrow> [])"

text \<open>
  The value a date input holds for a day of the years 0 to 9999: four digits of the year,
  two of the month and two of the day, \<open>YYYY-MM-DD\<close>.
\<close>

definition digitChar :: "nat \<Rightarrow> char" where
  "digitChar n = char_of (48 + n)"

definition pad2 :: "nat \<Rightarrow> string" where
  "pad2 n = [digitChar (n div 10 mod 10), digitChar (n mod 10)]"

definition pad4 :: "nat \<Rightarrow> string" where
  "pad4 n = pad2 (n div 100) @ pad2 (n mod 100)"

definition isoDate :: "nat \<Rightarrow> nat \<Rightarrow> nat \<Rightarrow> string" where
  "isoDate y m d = pad4 y @ ''-'' @ pad2 m @ ''-'' @ pad2 d"

text \<open>
  \<open>validate\<close>: the entries of \<open>newErrors\<close>, key and message, and whether there is none.
  Strings are compared as JavaScript compares them, lexicographically by character code.
\<close>

datatype validation_message =
    Selecione_um_cliente
  | Data_obrigatoria
  | Selecione_um_dia_da_semana
  | Data_final_obrigatoria
  | Data_final_deve_ser_posterior

definition validationErrors :: "ScheduleForm \<Rightarrow> (string \<times> validation_message) list" where
  "validationErrors form =
     (if form_clientId form = [] then [(''clientId'', Selecione_um_cliente)] else []) @
     (if form_scheduledDate form = [] then [(''scheduledDate'', Data_obrigatoria)] else []) @
     (if isRecurring form then
        (if selectedWeekdays form = [] then [(''weekdays'', Selecione_um_dia_da_semana)] else []) @
        (if recurrenceEndDate form = [] then [(''endDate'', Data_final_obrigatoria)] else []) @
        (if recurrenceEndDate form \<noteq> [] \<and> recurrenceEndDate form \<le> form_scheduledDate form
         then [(''endDate'', Data_final_deve_ser_posterior)] else [])
      else [])"

definition validate :: "ScheduleForm \<Rightarrow> bool" where
  "validate form \<longleftrightarrow> validationErrors form = []"

text \<open>
  \<open>handleSubmit\<close>: the bookings it asks \<open>onSubmit\<close> to create, in order. \<open>activePacks\<close>
  are the ids of the client's active packs; an invalid date is \<open>None\<close>.
\<close>

record BookingRequest =
  req_clientId :: string
  req_packId :: "string option"
  req_scheduledDate :: "Date option"
  req_scheduledTime :: string
  req_duration :: nat
  req_type :: OperationType
  req_notes :: string
  req_isExtra :: bool

definition bookingRequest :: "string list \<Rightarrow> ScheduleForm \<Rightarrow> Date option \<Rightarrow> BookingRequest" where
  "bookingRequest activePacks form d =
     \<lparr>req_clientId = form_clientId form,
      req_packId = (case activePacks of [] \<Rightarrow> None | p # rest \<Rightarrow> Some p),
      req_scheduledDate = d,
      req_scheduledTime = form_scheduledTime form,
      req_duration = form_duration form,
      req_type = form_type form,
      req_notes = form_notes form,
      req_isExtra = form_isExtra form\<rparr>"

definition handleSubmit :: "string list \<Rightarrow> ScheduleForm \<Rightarrow> BookingRequest list" where
  "handleSubmit activePacks form =
     (if \<not> validate form then []
      else if isRecurring form
      then map (\<lambda>d. bookingRequest activePacks form (Some d)) (generateRecurringDates form)
      else [bookingRequest activePacks form
              (case parseFields (form_scheduledDate form) of
                 None \<Rightarrow> None
               | Some (year, month, day) \<Rightarrow> Some (newDate year (month - 1) day 12 0 0))])"

section \<open>Scenarios\<close>

text \<open>
  The concrete packs, bookings and stores of the scenarios: one client \<open>c1\<close> with one
  pack \<open>p1\<close>, and bookings on the same date.
\<close>

definition scenario_pack :: "int \<Rightarrow> int \<Rightarrow> Pack" where
  "scenario_pack tot used =
     \<lparr>pack_clientId = ''c1'', serviceType = Walk_Service, totalCredits = tot,
      usedCredits = used, isActive = True\<rparr>"

definition scenario_service :: "string \<Rightarrow> OperationType \<Rightarrow> ScheduleStatus \<Rightarrow> ScheduledService" where
  "scenario_service sid ty s =
     \<lparr>svc_id = sid, svc_clientId = ''c1'', packId = Some ''p1'', scheduledDate = 1000,
      scheduledTime = ''07:30-08:00'', svc_type = ty, status = s, completedAt = None\<rparr>"

definition scenario_store :: "Pack \<Rightarrow> ScheduledService \<Rightarrow> store" where
  "scenario_store p service =
     \<lparr>packs = [''p1'' \<mapsto> p], operations = [],
      scheduledServices = [svc_id service \<mapsto> service]\<rparr>"

definition other_day_operation :: "nat \<times> Operation" where
  "other_day_operation =
     (1, \<lparr>op_packId = ''p1'', op_clientId = ''c1'', op_date = 999, op_type = Walk, weight = 1\<rparr>)"

definition same_day_operation :: "nat \<times> Operation" where
  "same_day_operation =
     (2, \<lparr>op_packId = ''p1'', op_clientId = ''c1'', op_date = 1000, op_type = Full_day, weight = 2\<rparr>)"

definition sitter_pack :: "int \<Rightarrow> Pack" where
  "sitter_pack used =
     \<lparr>pack_clientId = ''c1'', serviceType = Sitter,
      totalCredits = handleSubmit_totalCredits Sitter 8, usedCredits = used, isActive = True\<rparr>"

definition two_bookings_store :: store where
  "two_bookings_store =
     \<lparr>packs = [''p1'' \<mapsto> scenario_pack 8 5], operations = [],
      scheduledServices = [''s1'' \<mapsto> scenario_service ''s1'' Walk Scheduled,
                           ''s2'' \<mapsto> scenario_service ''s2'' Walk Scheduled]\<rparr>"

definition two_bookings_completed :: store where
  "two_bookings_completed =
     snd (completeService 2001 (scenario_service ''s2'' Walk Scheduled)
       (snd (completeService 2000 (scenario_service ''s1'' Walk Scheduled) two_bookings_store)))"

definition january_form :: ScheduleForm where
  "january_form =
     \<lparr>form_clientId = ''c1'', form_scheduledDate = ''2024-01-01'',
      form_scheduledTime = ''07:30-08:00'', form_duration = 60, form_type = Walk,
      form_notes = [], form_isExtra = False, isRecurring = True,
      selectedWeekdays = [1, 3], recurrenceEndDate = ''2024-01-15''\<rparr>"

section \<open>Lemmas about the store\<close>

lemma weight_pos: "0 < OPERATION_WEIGHTS ty"
  by (cases ty) simp_all

lemma fold_max_ge: "(a::nat) \<le> fold max xs a"
proof (induction xs arbitrary: a)
  case Nil
  then show ?case by simp
next
  case (Cons y ys)
  have "a \<le> max y a" by simp
  also have "\<dots> \<le> fold max ys (max y a)" by (rule Cons.IH)
  finally show ?case by simp
qed

lemma fold_max_mem: "x \<in> set xs \<Longrightarrow> (x::nat) \<le> fold max xs a"
proof (induction xs arbitrary: a)
  case Nil
  then show ?case by simp
next
  case (Cons y ys)
  show ?case
  proof (cases "x = y")
    case True
    have "max y a \<le> fold max ys (max y a)" by (rule fold_max_ge)
    then show ?thesis using True by simp
  next
    case False
    then show ?thesis using Cons by simp
  qed
qed

lemma fresh_id_fresh: "e \<in> set ops \<Longrightarrow> fst e \<noteq> fresh_id ops"
  using fold_max_mem[of "fst e" "map fst ops" 0] by (auto simp: fresh_id_def)

lemma filter_fresh_id: "filter (\<lambda>e. fst e \<noteq> fresh_id ops) ops = ops"
  by (rule filter_True) (simp add: fresh_id_fresh)

lemma commit_append:
  "commit (ws @ vs) st = (case commit ws st of None \<Rightarrow> None | Some st' \<Rightarrow> commit vs st')"
  by (induction ws arbitrary: st) (auto split: option.splits)

lemma commit_deletes:
  "commit (map (\<lambda>e. DeleteOperation (fst e)) ds) st =
     Some (st\<lparr>operations := filter (\<lambda>e. fst e \<notin> fst ` set ds) (operations st)\<rparr>)"
proof (induction ds arbitrary: st)
  case Nil
  then show ?case by simp
next
  case (Cons d ds)
  have "filter (\<lambda>e. fst e \<notin> fst ` set ds) (filter (\<lambda>e. fst e \<noteq> fst d) (operations st))
        = filter (\<lambda>e. fst e \<notin> fst ` set (d # ds)) (operations st)"
    by (auto intro: filter_cong)
  then show ?case using Cons by simp
qed

text \<open>
  Document ids are keys: when no two operations share an id, deleting the documents a
  query returned removes exactly the entries the query's predicate holds for.
\<close>

lemma delete_query_distinct:
  assumes "distinct (map fst ops)"
  shows "filter (\<lambda>e. fst e \<notin> fst ` set (filter P ops)) ops = filter (\<lambda>e. \<not> P e) ops"
proof (rule filter_cong[OF refl])
  fix e assume e: "e \<in> set ops"
  show "(fst e \<notin> fst ` set (filter P ops)) = (\<not> P e)"
  proof
    assume "fst e \<notin> fst ` set (filter P ops)"
    then show "\<not> P e" using e by force
  next
    assume np: "\<not> P e"
    show "fst e \<notin> fst ` set (filter P ops)"
    proof
      assume "fst e \<in> fst ` set (filter P ops)"
      then obtain e' where e': "e' \<in> set ops" "P e'" "fst e' = fst e" by auto
      with assms e have "e' = e"
        by (meson eq_key_imp_eq_value prod.collapse prod_eqI distinct_map inj_onD)
      with e' np show False by simp
    qed
  qed
qed

lemma fresh_id_notin: "fresh_id ops \<notin> fst ` set ops"
proof
  assume "fresh_id ops \<in> fst ` set ops"
  then obtain e where "e \<in> set ops" and "fst e = fresh_id ops" by auto
  then show False using fresh_id_fresh[of e ops] by simp
qed

section \<open>What the transitions write\<close>

lemma completeService_linked:
  assumes "linkedPack service = Some pid" and "packs st pid = Some p"
    and "usedCredits p + OPERATION_WEIGHTS (svc_type service) \<le> totalCredits p"
    and "scheduledServices st (svc_id service) = Some v"
  shows "completeService now service st =
    (None, st\<lparr>packs := (packs st)(pid \<mapsto>
                 p\<lparr>usedCredits := usedCredits p + OPERATION_WEIGHTS (svc_type service),
                   isActive := (if usedCredits p + OPERATION_WEIGHTS (svc_type service) \<ge> totalCredits p
                                then False else isActive p)\<rparr>),
              operations := operations st @ [(fresh_id (operations st),
                 \<lparr>op_packId = pid, op_clientId = svc_clientId service,
                  op_date = scheduledDate service, op_type = svc_type service,
                  weight = OPERATION_WEIGHTS (svc_type service)\<rparr>)],
              scheduledServices := (scheduledServices st)(svc_id service \<mapsto>
                 v\<lparr>status := Completed, completedAt := Some now\<rparr>)\<rparr>)"
  using assms unfolding completeService_def runTransaction_def Let_def
  by (simp add: filter_fresh_id)

lemma completeService_insufficient:
  assumes "linkedPack service = Some pid" and "packs st pid = Some p"
    and "totalCredits p - usedCredits p < OPERATION_WEIGHTS (svc_type service)"
  shows "completeService now service st = (Some InsufficientCredits, st)"
  using assms unfolding completeService_def runTransaction_def Let_def
  by simp

lemma revertServiceStatus_linked:
  assumes "status service = Completed" and "linkedPack service = Some pid"
    and "packs st pid = Some p" and "scheduledServices st (svc_id service) = Some v"
  shows "revertServiceStatus service st =
    (None, st\<lparr>operations := filter (\<lambda>e. fst e \<notin> fst ` set (operationsQuery pid service (operations st)))
                                 (operations st),
              packs := (packs st)(pid \<mapsto>
                 p\<lparr>usedCredits := max 0 (usedCredits p - OPERATION_WEIGHTS (svc_type service)),
                   isActive := True\<rparr>),
              scheduledServices := (scheduledServices st)(svc_id service \<mapsto>
                 v\<lparr>status := Scheduled, completedAt := None\<rparr>)\<rparr>)"
  using assms unfolding revertServiceStatus_def runTransaction_def Let_def
  by (simp add: commit_append commit_deletes)

lemma completeService_packs:
  assumes "packs st pid = Some p" and "0 \<le> usedCredits p" and "usedCredits p \<le> totalCredits p"
  shows "\<exists>p'. packs (snd (completeService now service st)) pid = Some p' \<and>
           0 \<le> usedCredits p' \<and> usedCredits p' \<le> totalCredits p' \<and> totalCredits p' = totalCredits p"
  using assms weight_pos[of "svc_type service"]
  unfolding completeService_def runTransaction_def updateScheduledService_def Let_def
  by (auto simp: filter_fresh_id split: option.splits if_splits)

lemma registerOperation_packs:
  assumes "packs st pid = Some p" and "0 \<le> usedCredits p" and "usedCredits p \<le> totalCredits p"
  shows "\<exists>p'. packs (snd (registerOperation now pid' cid ty st)) pid = Some p' \<and>
           0 \<le> usedCredits p' \<and> usedCredits p' \<le> totalCredits p' \<and> totalCredits p' = totalCredits p"
  using assms weight_pos[of ty]
  unfolding registerOperation_def runTransaction_def Let_def
  by (auto split: option.splits if_splits)

lemma revertServiceStatus_packs:
  assumes "packs st pid = Some p" and "0 \<le> usedCredits p" and "usedCredits p \<le> totalCredits p"
  shows "\<exists>p'. packs (snd (revertServiceStatus service st)) pid = Some p' \<and>
           0 \<le> usedCredits p' \<and> usedCredits p' \<le> totalCredits p' \<and> totalCredits p' = totalCredits p"
  using assms weight_pos[of "svc_type service"]
  unfolding revertServiceStatus_def runTransaction_def updateScheduledService_def Let_def
  by (auto simp: commit_append commit_deletes split: option.splits if_splits)

section \<open>The ledger\<close>

text \<open>
  Claim C1. A pack with \<open>0 \<le> usedCredits \<le> totalCredits\<close> still has these bounds after
  any single ledger operation, whatever the operation's arguments and outcome: the debit
  of \<open>completeService\<close> (and of \<open>registerOperation\<close>) never raises \<open>usedCredits\<close> above
  \<open>totalCredits\<close>, and the credit of \<open>revertServiceStatus\<close> never lowers it below 0. The
  pack is any pack of the store, the one the operation touches or another.
\<close>

theorem ledger_keeps_credit_bounds:
  assumes "packs st pid = Some p" and "0 \<le> usedCredits p" and "usedCredits p \<le> totalCredits p"
    and "st' = snd (completeService now service st) \<or>
         st' = snd (revertServiceStatus service st) \<or>
         st' = snd (registerOperation now pid' cid ty st)"
  shows "\<exists>p'. packs st' pid = Some p' \<and> 0 \<le> usedCredits p' \<and> usedCredits p' \<le> totalCredits p'"
  using assms completeService_packs[of st pid p now service]
    revertServiceStatus_packs[of st pid p service]
    registerOperation_packs[of st pid p now pid' cid ty]
  by auto

theorem ledger_keeps_credit_bounds_witness:
  "packs (scenario_store (scenario_pack 8 7) (scenario_service ''s1'' Walk Scheduled)) ''p1''
     = Some (scenario_pack 8 7)
   \<and> 0 \<le> usedCredits (scenario_pack 8 7)
   \<and> usedCredits (scenario_pack 8 7) \<le> totalCredits (scenario_pack 8 7)
   \<and> (\<exists>p'. packs (snd (completeService 2000 (scenario_service ''s1'' Walk Scheduled)
               (scenario_store (scenario_pack 8 7) (scenario_service ''s1'' Walk Scheduled)))) ''p1''
             = Some p'
           \<and> 0 \<le> usedCredits p' \<and> usedCredits p' \<le> totalCredits p')"
  using ledger_keeps_credit_bounds[of
      "scenario_store (scenario_pack 8 7) (scenario_service ''s1'' Walk Scheduled)"
      "''p1''" "scenario_pack 8 7"
      "snd (completeService 2000 (scenario_service ''s1'' Walk Scheduled)
             (scenario_store (scenario_pack 8 7) (scenario_service ''s1'' Walk Scheduled)))"
      2000 "scenario_service ''s1'' Walk Scheduled"]
  by (simp add: scenario_store_def scenario_pack_def)

text \<open>
  Claim C2. When the pack's remaining credits \<open>totalCredits - usedCredits\<close> are fewer than
  the weight of the booking's type, completing a pack-linked booking fails with
  \<open>InsufficientCredits\<close> and the store afterwards is the store before: the pack keeps its
  \<open>usedCredits\<close>, \<open>totalCredits\<close> and \<open>isActive\<close>, no operation is created, and the booking
  keeps its status and its \<open>completedAt\<close>. \<open>registerOperation\<close> fails the same way.
\<close>

theorem complete_insufficient_credits:
  assumes "linkedPack service = Some pid" and "packs st pid = Some p"
    and "totalCredits p - usedCredits p < OPERATION_WEIGHTS (svc_type service)"
  shows "completeService now service st = (Some InsufficientCredits, st)
       \<and> packs (snd (completeService now service st)) pid = Some p
       \<and> operations (snd (completeService now service st)) = operations st
       \<and> scheduledServices (snd (completeService now service st)) (svc_id service)
           = scheduledServices st (svc_id service)
       \<and> registerOperation now pid cid (svc_type service) st = (Some InsufficientCredits, st)"
proof -
  have "registerOperation now pid cid (svc_type service) st = (Some InsufficientCredits, st)"
    using assms(2,3) unfolding registerOperation_def runTransaction_def Let_def by simp
  then show ?thesis
    using assms(2) by (simp add: completeService_insufficient[OF assms])
qed

theorem complete_insufficient_credits_witness:
  "linkedPack (scenario_service ''s1'' Full_day Scheduled) = Some ''p1''
   \<and> packs (scenario_store (scenario_pack 8 7) (scenario_service ''s1'' Full_day Scheduled)) ''p1''
       = Some (scenario_pack 8 7)
   \<and> totalCredits (scenario_pack 8 7) - usedCredits (scenario_pack 8 7)
       < OPERATION_WEIGHTS (svc_type (scenario_service ''s1'' Full_day Scheduled))
   \<and> completeService 2000 (scenario_service ''s1'' Full_day Scheduled)
        (scenario_store (scenario_pack 8 7) (scenario_service ''s1'' Full_day Scheduled))
       = (Some InsufficientCredits,
          \<lparr>packs = [''p1'' \<mapsto> scenario_pack 8 7], operations = [],
           scheduledServices = [''s1'' \<mapsto> scenario_service ''s1'' Full_day Scheduled]\<rparr>)
   \<and> status (scenario_service ''s1'' Full_day Scheduled) = Scheduled
   \<and> completedAt (scenario_service ''s1'' Full_day Scheduled) = None"
  using complete_insufficient_credits[of "scenario_service ''s1'' Full_day Scheduled" "''p1''"
      "scenario_store (scenario_pack 8 7) (scenario_service ''s1'' Full_day Scheduled)"
      "scenario_pack 8 7" 2000 "''c1''"]
  by (simp add: scenario_store_def scenario_pack_def scenario_service_def)

text \<open>
  Claim C3. Completing a pack-linked scheduled booking whose pack has room for the weight
  of its type succeeds; the pack's \<open>usedCredits\<close> grows by exactly the weight, \<open>isActive\<close>
  becomes false exactly when the new \<open>usedCredits\<close> reaches \<open>totalCredits\<close> (and is left as
  it was otherwise), exactly one operation is appended, under an id no operation had, with
  the booking's pack, client, scheduled date, type and weight, and the booking becomes
  completed with \<open>completedAt\<close> set. The instance after the theorem is the scenario of a
  pack with 8 credits, 7 of them used, and a walk.
\<close>

theorem complete_debits_pack:
  assumes "linkedPack service = Some pid" and "packs st pid = Some p"
    and "usedCredits p + OPERATION_WEIGHTS (svc_type service) \<le> totalCredits p"
    and "scheduledServices st (svc_id service) = Some service"
    and "status service = Scheduled"
  shows "\<exists>st'. completeService now service st = (None, st')
       \<and> packs st' = (packs st)(pid \<mapsto>
            p\<lparr>usedCredits := usedCredits p + OPERATION_WEIGHTS (svc_type service),
              isActive := (if usedCredits p + OPERATION_WEIGHTS (svc_type service) \<ge> totalCredits p
                           then False else isActive p)\<rparr>)
       \<and> operations st' = operations st @
            [(fresh_id (operations st),
              \<lparr>op_packId = pid, op_clientId = svc_clientId service,
               op_date = scheduledDate service, op_type = svc_type service,
               weight = OPERATION_WEIGHTS (svc_type service)\<rparr>)]
       \<and> fresh_id (operations st) \<notin> fst ` set (operations st)
       \<and> scheduledServices st' = (scheduledServices st)(svc_id service \<mapsto>
            service\<lparr>status := Completed, completedAt := Some now\<rparr>)"
  by (simp add: completeService_linked[OF assms(1-4)] fresh_id_notin)

theorem complete_debits_pack_witness:
  "fst (completeService 2000 (scenario_service ''s1'' Walk Scheduled)
     (scenario_store (scenario_pack 8 7) (scenario_service ''s1'' Walk Scheduled))) = None
   \<and> packs (snd (completeService 2000 (scenario_service ''s1'' Walk Scheduled)
       (scenario_store (scenario_pack 8 7) (scenario_service ''s1'' Walk Scheduled)))) ''p1''
     = Some \<lparr>pack_clientId = ''c1'', serviceType = Walk_Service, totalCredits = 8,
             usedCredits = 8, isActive = False\<rparr>
   \<and> operations (snd (completeService 2000 (scenario_service ''s1'' Walk Scheduled)
       (scenario_store (scenario_pack 8 7) (scenario_service ''s1'' Walk Scheduled))))
     = [(1, \<lparr>op_packId = ''p1'', op_clientId = ''c1'', op_date = 1000,
             op_type = Walk, weight = 1\<rparr>)]
   \<and> map_option (\<lambda>v. (status v, completedAt v))
       (scheduledServices (snd (completeService 2000 (scenario_service ''s1'' Walk Scheduled)
         (scenario_store (scenario_pack 8 7) (scenario_service ''s1'' Walk Scheduled)))) ''s1'')
     = Some (Completed, Some 2000)"
proof -
  let ?service = "scenario_service ''s1'' Walk Scheduled"
  let ?st = "scenario_store (scenario_pack 8 7) ?service"
  have "linkedPack ?service = Some ''p1''"
    and "packs ?st ''p1'' = Some (scenario_pack 8 7)"
    and "usedCredits (scenario_pack 8 7) + OPERATION_WEIGHTS (svc_type ?service)
          \<le> totalCredits (scenario_pack 8 7)"
    and "scheduledServices ?st (svc_id ?service) = Some ?service"
    and "status ?service = Scheduled"
    by (simp_all add: scenario_store_def scenario_pack_def scenario_service_def)
  from complete_debits_pack[OF this, of 2000] show ?thesis
    by (auto simp: scenario_store_def scenario_pack_def scenario_service_def fresh_id_def)
qed

text \<open>
  Claim C4. For a pack-linked scheduled booking whose debit succeeds, on a pack with
  \<open>0 \<le> usedCredits\<close>, completing and then reverting the completed booking gives back the
  pack's \<open>usedCredits\<close> and the booking's status; \<open>completedAt\<close> is cleared.
\<close>

theorem complete_then_revert_round_trip:
  assumes "linkedPack service = Some pid" and "packs st pid = Some p"
    and "0 \<le> usedCredits p"
    and "usedCredits p + OPERATION_WEIGHTS (svc_type service) \<le> totalCredits p"
    and "scheduledServices st (svc_id service) = Some service"
    and "status service = Scheduled"
  shows "let (r1, st1) = completeService now service st;
             service1 = service\<lparr>status := Completed, completedAt := Some now\<rparr>;
             (r2, st2) = revertServiceStatus service1 st1
         in r1 = None
          \<and> scheduledServices st1 (svc_id service) = Some service1
          \<and> r2 = None
          \<and> map_option usedCredits (packs st2 pid) = Some (usedCredits p)
          \<and> map_option status (scheduledServices st2 (svc_id service)) = Some (status service)
          \<and> map_option completedAt (scheduledServices st2 (svc_id service)) = Some None
          \<and> scheduledServices st2 (svc_id service) = Some (service\<lparr>completedAt := None\<rparr>)"
proof -
  let ?w = "OPERATION_WEIGHTS (svc_type service)"
  let ?service1 = "service\<lparr>status := Completed, completedAt := Some now\<rparr>"
  let ?p1 = "p\<lparr>usedCredits := usedCredits p + ?w,
                isActive := (if usedCredits p + ?w \<ge> totalCredits p then False else isActive p)\<rparr>"
  obtain st1 where c: "completeService now service st = (None, st1)"
    and p1: "packs st1 pid = Some ?p1"
    and s1: "scheduledServices st1 (svc_id service) = Some ?service1"
    by (simp add: completeService_linked[OF assms(1,2,4,5)])
  have l1: "linkedPack ?service1 = Some pid" using assms(1) by simp
  have r: "revertServiceStatus ?service1 st1 =
      (None, st1\<lparr>operations := filter (\<lambda>e. fst e \<notin> fst ` set (operationsQuery pid ?service1 (operations st1)))
                                 (operations st1),
              packs := (packs st1)(pid \<mapsto>
                 ?p1\<lparr>usedCredits := max 0 (usedCredits ?p1 - OPERATION_WEIGHTS (svc_type ?service1)),
                   isActive := True\<rparr>),
              scheduledServices := (scheduledServices st1)(svc_id ?service1 \<mapsto>
                 ?service1\<lparr>status := Scheduled, completedAt := None\<rparr>)\<rparr>)"
    by (rule revertServiceStatus_linked[OF _ l1 p1]) (simp_all add: s1)
  show ?thesis
    using c s1 r assms(3,6) by (simp add: Let_def)
qed

theorem complete_then_revert_round_trip_witness:
  "fst (completeService 2000 (scenario_service ''s1'' Walk Scheduled)
          (scenario_store (scenario_pack 8 7) (scenario_service ''s1'' Walk Scheduled))) = None
   \<and> fst (revertServiceStatus ((scenario_service ''s1'' Walk Scheduled)\<lparr>status := Completed, completedAt := Some 2000\<rparr>)
        (snd (completeService 2000 (scenario_service ''s1'' Walk Scheduled)
          (scenario_store (scenario_pack 8 7) (scenario_service ''s1'' Walk Scheduled))))) = None
   \<and> map_option usedCredits (packs (snd (revertServiceStatus
        ((scenario_service ''s1'' Walk Scheduled)\<lparr>status := Completed, completedAt := Some 2000\<rparr>)
        (snd (completeService 2000 (scenario_service ''s1'' Walk Scheduled)
          (scenario_store (scenario_pack 8 7) (scenario_service ''s1'' Walk Scheduled)))))) ''p1'')
       = Some 7
   \<and> scheduledServices (snd (revertServiceStatus
        ((scenario_service ''s1'' Walk Scheduled)\<lparr>status := Completed, completedAt := Some 2000\<rparr>)
        (snd (completeService 2000 (scenario_service ''s1'' Walk Scheduled)
          (scenario_store (scenario_pack 8 7) (scenario_service ''s1'' Walk Scheduled)))))) ''s1''
       = Some (scenario_service ''s1'' Walk Scheduled)"
proof -
  let ?service = "scenario_service ''s1'' Walk Scheduled"
  let ?st = "scenario_store (scenario_pack 8 7) ?service"
  have "linkedPack ?service = Some ''p1''"
    and "packs ?st ''p1'' = Some (scenario_pack 8 7)"
    and "0 \<le> usedCredits (scenario_pack 8 7)"
    and "usedCredits (scenario_pack 8 7) + OPERATION_WEIGHTS (svc_type ?service)
          \<le> totalCredits (scenario_pack 8 7)"
    and "scheduledServices ?st (svc_id ?service) = Some ?service"
    and "status ?service = Scheduled"
    by (simp_all add: scenario_store_def scenario_pack_def scenario_service_def)
  from complete_then_revert_round_trip[OF this, of 2000] show ?thesis
    by (simp add: Let_def split_def scenario_pack_def scenario_service_def)
qed

text \<open>
  Claim C5. Reverting a completed pack-linked booking whose pack exists writes
  \<open>usedCredits = max 0 (usedCredits - weight)\<close>, sets \<open>isActive\<close> to true and deletes the
  operations that match the booking's pack, client and date. When none matches, the
  operations are left as they are and the balance is restored all the same.
\<close>

theorem revert_credits_pack:
  assumes "status service = Completed" and "linkedPack service = Some pid"
    and "packs st pid = Some p" and "scheduledServices st (svc_id service) = Some v"
    and "distinct (map fst (operations st))"
  shows "\<exists>st'. revertServiceStatus service st = (None, st')
       \<and> packs st' = (packs st)(pid \<mapsto>
            p\<lparr>usedCredits := max 0 (usedCredits p - OPERATION_WEIGHTS (svc_type service)),
              isActive := True\<rparr>)
       \<and> operations st' = filter (\<lambda>e. \<not> matchesService pid service (snd e)) (operations st)
       \<and> (operationsQuery pid service (operations st) = [] \<longrightarrow> operations st' = operations st)
       \<and> scheduledServices st' = (scheduledServices st)(svc_id service \<mapsto>
            v\<lparr>status := Scheduled, completedAt := None\<rparr>)"
proof -
  have d: "filter (\<lambda>e. fst e \<notin> fst ` set (operationsQuery pid service (operations st))) (operations st)
           = filter (\<lambda>e. \<not> matchesService pid service (snd e)) (operations st)"
    unfolding operationsQuery_def by (rule delete_query_distinct[OF assms(5)])
  have e: "operationsQuery pid service (operations st) = [] \<Longrightarrow>
           filter (\<lambda>e. \<not> matchesService pid service (snd e)) (operations st) = operations st"
    unfolding operationsQuery_def by (simp add: filter_empty_conv)
  show ?thesis
    using e by (simp add: revertServiceStatus_linked[OF assms(1-4)] d)
qed

theorem revert_credits_pack_witness:
  "revertServiceStatus (scenario_service ''s1'' Full_day Completed)
     ((scenario_store (scenario_pack 8 1) (scenario_service ''s1'' Full_day Completed))
        \<lparr>operations := [other_day_operation]\<rparr>)
   = (None,
      \<lparr>packs = [''p1'' \<mapsto> scenario_pack 8 0],
       operations = [other_day_operation],
       scheduledServices = [''s1'' \<mapsto> scenario_service ''s1'' Full_day Scheduled]\<rparr>)
   \<and> revertServiceStatus (scenario_service ''s1'' Full_day Completed)
     ((scenario_store (scenario_pack 8 5) (scenario_service ''s1'' Full_day Completed))
        \<lparr>operations := [other_day_operation, same_day_operation]\<rparr>)
   = (None,
      \<lparr>packs = [''p1'' \<mapsto> scenario_pack 8 3],
       operations = [other_day_operation],
       scheduledServices = [''s1'' \<mapsto> scenario_service ''s1'' Full_day Scheduled]\<rparr>)"
proof -
  let ?service = "scenario_service ''s1'' Full_day Completed"
  let ?st = "(scenario_store (scenario_pack 8 1) ?service)\<lparr>operations := [other_day_operation]\<rparr>"
  let ?st2 = "(scenario_store (scenario_pack 8 5) ?service)
                \<lparr>operations := [other_day_operation, same_day_operation]\<rparr>"
  have h: "status ?service = Completed" "linkedPack ?service = Some ''p1''"
    by (simp_all add: scenario_service_def)
  have "packs ?st ''p1'' = Some (scenario_pack 8 1)"
    and "scheduledServices ?st (svc_id ?service) = Some ?service"
    and "distinct (map fst (operations ?st))"
    by (simp_all add: scenario_store_def)
  from revert_credits_pack[OF h this]
  have a: "revertServiceStatus ?service ?st
   = (None,
      \<lparr>packs = [''p1'' \<mapsto> scenario_pack 8 0],
       operations = [other_day_operation],
       scheduledServices = [''s1'' \<mapsto> scenario_service ''s1'' Full_day Scheduled]\<rparr>)"
    by (auto simp: scenario_store_def scenario_pack_def scenario_service_def
        other_day_operation_def matchesService_def)
  have "packs ?st2 ''p1'' = Some (scenario_pack 8 5)"
    and "scheduledServices ?st2 (svc_id ?service) = Some ?service"
    and "distinct (map fst (operations ?st2))"
    by (simp_all add: scenario_store_def other_day_operation_def same_day_operation_def)
  from revert_credits_pack[OF h this]
  have b: "revertServiceStatus ?service ?st2
   = (None,
      \<lparr>packs = [''p1'' \<mapsto> scenario_pack 8 3],
       operations = [other_day_operation],
       scheduledServices = [''s1'' \<mapsto> scenario_service ''s1'' Full_day Scheduled]\<rparr>)"
    by (auto simp: scenario_store_def scenario_pack_def scenario_service_def
        other_day_operation_def same_day_operation_def matchesService_def)
  show ?thesis using a b by simp
qed

text \<open>
  Claim C6, as the code has it. A sitter pack is created with \<open>totalCredits = 9999\<close> and
  goes through the same capacity check as every pack: the check is not skipped.
  At \<open>usedCredits = 9999\<close> a completion fails with \<open>InsufficientCredits\<close>, and a
  completion that brings \<open>usedCredits\<close> to 9999 sets \<open>isActive\<close> to false.
\<close>

theorem sitter_pack_counterexample:
  "serviceType (sitter_pack 9999) = Sitter
   \<and> completeService 2000 (scenario_service ''s1'' Walk Scheduled)
        (scenario_store (sitter_pack 9999) (scenario_service ''s1'' Walk Scheduled))
      = (Some InsufficientCredits,
         scenario_store (sitter_pack 9999) (scenario_service ''s1'' Walk Scheduled))
   \<and> serviceType (sitter_pack 9998) = Sitter
   \<and> isActive (sitter_pack 9998)
   \<and> fst (completeService 2000 (scenario_service ''s1'' Walk Scheduled)
        (scenario_store (sitter_pack 9998) (scenario_service ''s1'' Walk Scheduled))) = None
   \<and> map_option isActive (packs (snd (completeService 2000 (scenario_service ''s1'' Walk Scheduled)
        (scenario_store (sitter_pack 9998) (scenario_service ''s1'' Walk Scheduled)))) ''p1'')
      = Some False"
  by (simp add: completeService_def runTransaction_def Let_def scenario_store_def
      scenario_service_def sitter_pack_def handleSubmit_totalCredits_def)

text \<open>
  Claim C6, amended. For a sitter pack created by the pack form, completing a booking
  linked to it succeeds and leaves \<open>isActive\<close> as it was while
  \<open>usedCredits + weight < 9999\<close>; it succeeds and sets \<open>isActive\<close> to false when
  \<open>usedCredits + weight = 9999\<close>; and it fails with \<open>InsufficientCredits\<close>, the store
  unchanged, when \<open>usedCredits + weight > 9999\<close>.
\<close>

theorem sitter_pack_capacity:
  assumes "linkedPack service = Some pid" and "packs st pid = Some p"
    and "serviceType p = Sitter"
    and "totalCredits p = handleSubmit_totalCredits Sitter n"
    and "scheduledServices st (svc_id service) = Some v"
  shows "(usedCredits p + OPERATION_WEIGHTS (svc_type service) < 9999 \<longrightarrow>
            fst (completeService now service st) = None
          \<and> map_option isActive (packs (snd (completeService now service st)) pid)
              = Some (isActive p))
       \<and> (usedCredits p + OPERATION_WEIGHTS (svc_type service) = 9999 \<longrightarrow>
            fst (completeService now service st) = None
          \<and> map_option isActive (packs (snd (completeService now service st)) pid)
              = Some False)
       \<and> (usedCredits p + OPERATION_WEIGHTS (svc_type service) > 9999 \<longrightarrow>
            completeService now service st = (Some InsufficientCredits, st))"
proof -
  have t: "totalCredits p = 9999"
    using assms(4) by (simp add: handleSubmit_totalCredits_def)
  have a: "usedCredits p + OPERATION_WEIGHTS (svc_type service) \<le> 9999 \<Longrightarrow>
      fst (completeService now service st) = None
      \<and> map_option isActive (packs (snd (completeService now service st)) pid)
         = Some (if usedCredits p + OPERATION_WEIGHTS (svc_type service) \<ge> 9999 then False else isActive p)"
    using completeService_linked[OF assms(1,2) _ assms(5), of now] t by simp
  have b: "usedCredits p + OPERATION_WEIGHTS (svc_type service) > 9999 \<Longrightarrow>
      completeService now service st = (Some InsufficientCredits, st)"
    using completeService_insufficient[OF assms(1,2), of now] t by simp
  show ?thesis using a b by auto
qed

theorem sitter_pack_capacity_witness:
  "fst (completeService 2000 (scenario_service ''s1'' Full_day Scheduled)
        (scenario_store (sitter_pack 40) (scenario_service ''s1'' Full_day Scheduled))) = None
   \<and> map_option isActive (packs (snd (completeService 2000 (scenario_service ''s1'' Full_day Scheduled)
        (scenario_store (sitter_pack 40) (scenario_service ''s1'' Full_day Scheduled)))) ''p1'')
      = Some True
   \<and> map_option isActive (packs (snd (completeService 2000 (scenario_service ''s1'' Full_day Scheduled)
        (scenario_store (sitter_pack 9997) (scenario_service ''s1'' Full_day Scheduled)))) ''p1'')
      = Some False
   \<and> completeService 2000 (scenario_service ''s1'' Full_day Scheduled)
        (scenario_store (sitter_pack 9998) (scenario_service ''s1'' Full_day Scheduled))
      = (Some InsufficientCredits,
         scenario_store (sitter_pack 9998) (scenario_service ''s1'' Full_day Scheduled))"
proof -
  let ?service = "scenario_service ''s1'' Full_day Scheduled"
  have h: "linkedPack ?service = Some ''p1''"
    "\<And>u. packs (scenario_store (sitter_pack u) ?service) ''p1'' = Some (sitter_pack u)"
    "\<And>u. serviceType (sitter_pack u) = Sitter"
    "\<And>u. totalCredits (sitter_pack u) = handleSubmit_totalCredits Sitter 8"
    "\<And>u. scheduledServices (scenario_store (sitter_pack u) ?service) (svc_id ?service) = Some ?service"
    by (simp_all add: scenario_store_def sitter_pack_def scenario_service_def)
  have u: "\<And>u. usedCredits (sitter_pack u) = u" "\<And>u. isActive (sitter_pack u) = True"
    "OPERATION_WEIGHTS (svc_type ?service) = 2"
    by (simp_all add: sitter_pack_def scenario_service_def)
  show ?thesis
    using sitter_pack_capacity[OF h(1) h(2)[of 40] h(3) h(4) h(5), of 2000]
      sitter_pack_capacity[OF h(1) h(2)[of 9997] h(3) h(4) h(5), of 2000]
      sitter_pack_capacity[OF h(1) h(2)[of 9998] h(3) h(4) h(5), of 2000]
    by (simp add: u)
qed

section \<open>The booking transitions\<close>

text \<open>
  Claim C7, as the code has it. \<open>revertServiceStatus\<close> does not look for the status
  \<open>cancelled\<close>: on a cancelled booking it raises no error and sets the status back to
  \<open>scheduled\<close>.
\<close>

theorem revert_cancelled_counterexample:
  "status (scenario_service ''s1'' Walk Cancelled) = Cancelled
   \<and> revertServiceStatus (scenario_service ''s1'' Walk Cancelled)
        (scenario_store (scenario_pack 8 7) (scenario_service ''s1'' Walk Cancelled))
      = (None, scenario_store (scenario_pack 8 7) (scenario_service ''s1'' Walk Scheduled))"
  by (simp add: revertServiceStatus_def updateScheduledService_def Let_def scenario_store_def
      scenario_service_def)

text \<open>
  Claim C7, amended. Reverting a cancelled booking that is in the store raises no error,
  leaves packs and operations as they are, and sets the booking's status to \<open>scheduled\<close>
  with \<open>completedAt\<close> cleared. Cancelling a booking only sets its status to \<open>cancelled\<close>.
  What keeps a cancelled booking away from a revert is the list of services the screens
  work from, which never holds a cancelled booking.
\<close>

theorem revert_cancelled_not_rejected:
  assumes "status service = Cancelled"
    and "scheduledServices st (svc_id service) = Some v"
  shows "revertServiceStatus service st =
           (None, st\<lparr>scheduledServices := (scheduledServices st)(svc_id service \<mapsto>
                        v\<lparr>status := Scheduled, completedAt := None\<rparr>)\<rparr>)
       \<and> cancelService (svc_id service) st =
           (None, st\<lparr>scheduledServices := (scheduledServices st)(svc_id service \<mapsto>
                        v\<lparr>status := Cancelled\<rparr>)\<rparr>)
       \<and> service \<notin> set (activeServices servicesData)"
  using assms
  by (simp add: revertServiceStatus_def cancelService_def updateScheduledService_def Let_def
      activeServices_def)

theorem revert_cancelled_not_rejected_witness:
  "status (scenario_service ''s1'' Walk Cancelled) = Cancelled
   \<and> revertServiceStatus (scenario_service ''s1'' Walk Cancelled)
        (scenario_store (scenario_pack 8 7) (scenario_service ''s1'' Walk Cancelled))
      = (None, scenario_store (scenario_pack 8 7) (scenario_service ''s1'' Walk Scheduled))
   \<and> scenario_service ''s1'' Walk Cancelled
        \<notin> set (activeServices [scenario_service ''s1'' Walk Cancelled,
                                 scenario_service ''s2'' Walk Completed])"
  using revert_cancelled_not_rejected[of "scenario_service ''s1'' Walk Cancelled"
      "scenario_store (scenario_pack 8 7) (scenario_service ''s1'' Walk Cancelled)"
      "scenario_service ''s1'' Walk Cancelled"
      "[scenario_service ''s1'' Walk Cancelled, scenario_service ''s2'' Walk Completed]"]
  by (simp add: scenario_store_def scenario_service_def)

lemma two_bookings_completed_eq:
  "two_bookings_completed =
     \<lparr>packs = [''p1'' \<mapsto> scenario_pack 8 7],
      operations =
        [(1, \<lparr>op_packId = ''p1'', op_clientId = ''c1'', op_date = 1000, op_type = Walk, weight = 1\<rparr>),
         (2, \<lparr>op_packId = ''p1'', op_clientId = ''c1'', op_date = 1000, op_type = Walk, weight = 1\<rparr>)],
      scheduledServices =
        [''s1'' \<mapsto> (scenario_service ''s1'' Walk Completed)\<lparr>completedAt := Some 2000\<rparr>,
         ''s2'' \<mapsto> (scenario_service ''s2'' Walk Completed)\<lparr>completedAt := Some 2001\<rparr>]\<rparr>"
  by (simp add: two_bookings_completed_def two_bookings_store_def completeService_def
      runTransaction_def Let_def scenario_service_def scenario_pack_def fresh_id_def)

lemma revert_one_of_two:
  "fst (revertServiceStatus ((scenario_service ''s1'' Walk Completed)\<lparr>completedAt := Some 2000\<rparr>)
     two_bookings_completed) = None
   \<and> operations (snd (revertServiceStatus
        ((scenario_service ''s1'' Walk Completed)\<lparr>completedAt := Some 2000\<rparr>)
        two_bookings_completed)) = []
   \<and> packs (snd (revertServiceStatus
        ((scenario_service ''s1'' Walk Completed)\<lparr>completedAt := Some 2000\<rparr>)
        two_bookings_completed)) ''p1'' = Some (scenario_pack 8 6)"
  by (simp add: two_bookings_completed_eq revertServiceStatus_def runTransaction_def Let_def
      operationsQuery_def matchesService_def scenario_service_def scenario_pack_def)

text \<open>
  Claim C10. Reverting a completed pack-linked booking deletes every operation whose
  pack, client and date are the booking's, however many there are, while \<open>usedCredits\<close>
  goes down by the weight of that one booking only. There is a store with two completed
  bookings of the same pack, client and date, and so two operations, where reverting
  one booking leaves no operation. The instance after the theorem reaches such a store
  by completing the two bookings one after the other.
\<close>

theorem revert_deletes_every_matching_operation:
  assumes "status service = Completed" and "linkedPack service = Some pid"
    and "packs st pid = Some p" and "scheduledServices st (svc_id service) = Some v"
    and "distinct (map fst (operations st))"
  shows "operations (snd (revertServiceStatus service st))
           = filter (\<lambda>e. \<not> matchesService pid service (snd e)) (operations st)
       \<and> (\<forall>e \<in> set (operations st). matchesService pid service (snd e) \<longrightarrow>
             e \<notin> set (operations (snd (revertServiceStatus service st))))
       \<and> map_option usedCredits (packs (snd (revertServiceStatus service st)) pid)
           = Some (max 0 (usedCredits p - OPERATION_WEIGHTS (svc_type service)))
       \<and> (\<exists>st2 a b pid2 p2.
             svc_id a \<noteq> svc_id b
           \<and> scheduledServices st2 (svc_id a) = Some a \<and> scheduledServices st2 (svc_id b) = Some b
           \<and> status a = Completed \<and> status b = Completed
           \<and> linkedPack a = Some pid2 \<and> linkedPack b = Some pid2
           \<and> svc_clientId a = svc_clientId b \<and> scheduledDate a = scheduledDate b
           \<and> packs st2 pid2 = Some p2
           \<and> length (operations st2) = 2
           \<and> operations (snd (revertServiceStatus a st2)) = []
           \<and> map_option usedCredits (packs (snd (revertServiceStatus a st2)) pid2)
               = Some (usedCredits p2 - OPERATION_WEIGHTS (svc_type a)))"
proof -
  have d: "filter (\<lambda>e. fst e \<notin> fst ` set (operationsQuery pid service (operations st))) (operations st)
           = filter (\<lambda>e. \<not> matchesService pid service (snd e)) (operations st)"
    unfolding operationsQuery_def by (rule delete_query_distinct[OF assms(5)])
  have g: "operations (snd (revertServiceStatus service st))
           = filter (\<lambda>e. \<not> matchesService pid service (snd e)) (operations st)"
    "map_option usedCredits (packs (snd (revertServiceStatus service st)) pid)
           = Some (max 0 (usedCredits p - OPERATION_WEIGHTS (svc_type service)))"
    by (simp_all add: revertServiceStatus_linked[OF assms(1-4)] d)
  let ?a = "(scenario_service ''s1'' Walk Completed)\<lparr>completedAt := Some 2000\<rparr>"
  let ?b = "(scenario_service ''s2'' Walk Completed)\<lparr>completedAt := Some 2001\<rparr>"
  have ex: "svc_id ?a \<noteq> svc_id ?b
           \<and> scheduledServices two_bookings_completed (svc_id ?a) = Some ?a
           \<and> scheduledServices two_bookings_completed (svc_id ?b) = Some ?b
           \<and> status ?a = Completed \<and> status ?b = Completed
           \<and> linkedPack ?a = Some ''p1'' \<and> linkedPack ?b = Some ''p1''
           \<and> svc_clientId ?a = svc_clientId ?b \<and> scheduledDate ?a = scheduledDate ?b
           \<and> packs two_bookings_completed ''p1'' = Some (scenario_pack 8 7)
           \<and> length (operations two_bookings_completed) = 2
           \<and> operations (snd (revertServiceStatus ?a two_bookings_completed)) = []
           \<and> map_option usedCredits (packs (snd (revertServiceStatus ?a two_bookings_completed)) ''p1'')
               = Some (usedCredits (scenario_pack 8 7) - OPERATION_WEIGHTS (svc_type ?a))"
    using revert_one_of_two
    by (simp add: two_bookings_completed_eq scenario_service_def scenario_pack_def)
  have ex': "\<exists>st2 a b pid2 p2.
             svc_id a \<noteq> svc_id b
           \<and> scheduledServices st2 (svc_id a) = Some a \<and> scheduledServices st2 (svc_id b) = Some b
           \<and> status a = Completed \<and> status b = Completed
           \<and> linkedPack a = Some pid2 \<and> linkedPack b = Some pid2
           \<and> svc_clientId a = svc_clientId b \<and> scheduledDate a = scheduledDate b
           \<and> packs st2 pid2 = Some p2
           \<and> length (operations st2) = 2
           \<and> operations (snd (revertServiceStatus a st2)) = []
           \<and> map_option usedCredits (packs (snd (revertServiceStatus a st2)) pid2)
               = Some (usedCredits p2 - OPERATION_WEIGHTS (svc_type a))"
    by (rule exI[of _ two_bookings_completed], rule exI[of _ ?a], rule exI[of _ ?b],
        rule exI[of _ "''p1''"], rule exI[of _ "scenario_pack 8 7"]) (rule ex)
  have m: "\<forall>e \<in> set (operations st). matchesService pid service (snd e) \<longrightarrow>
             e \<notin> set (operations (snd (revertServiceStatus service st)))"
    by (simp add: g(1))
  show ?thesis
    using g m ex' by blast
qed

theorem revert_deletes_every_matching_operation_witness:
  "map snd (operations two_bookings_completed)
     = [\<lparr>op_packId = ''p1'', op_clientId = ''c1'', op_date = 1000, op_type = Walk, weight = 1\<rparr>,
        \<lparr>op_packId = ''p1'', op_clientId = ''c1'', op_date = 1000, op_type = Walk, weight = 1\<rparr>]
   \<and> map_option usedCredits (packs two_bookings_completed ''p1'') = Some 7
   \<and> operations (snd (revertServiceStatus
        ((scenario_service ''s1'' Walk Completed)\<lparr>completedAt := Some 2000\<rparr>)
        two_bookings_completed)) = []
   \<and> map_option usedCredits (packs (snd (revertServiceStatus
        ((scenario_service ''s1'' Walk Completed)\<lparr>completedAt := Some 2000\<rparr>)
        two_bookings_completed)) ''p1'') = Some 6"
proof -
  let ?a = "(scenario_service ''s1'' Walk Completed)\<lparr>completedAt := Some 2000\<rparr>"
  have "status ?a = Completed" and "linkedPack ?a = Some ''p1''"
    and "packs two_bookings_completed ''p1'' = Some (scenario_pack 8 7)"
    and "scheduledServices two_bookings_completed (svc_id ?a) = Some ?a"
    and "distinct (map fst (operations two_bookings_completed))"
    by (simp_all add: two_bookings_completed_eq scenario_service_def)
  from revert_deletes_every_matching_operation[OF this] show ?thesis
    by (simp add: two_bookings_completed_eq matchesService_def scenario_service_def scenario_pack_def)
qed

section \<open>The slot grid: occupied slots\<close>

lemma findIndex_Some: "findIndex P xs = Some i \<Longrightarrow> i < length xs \<and> P (xs ! i)"
proof (induction xs arbitrary: i)
  case Nil
  then show ?case by simp
next
  case (Cons x xs)
  then show ?case by (cases "P x") auto
qed

lemma slotsNeeded_div: "slotsNeeded duration = (duration + 29) div 30"
proof -
  define q where "q = (duration + 29) div 30"
  have "duration + 29 = 30 * q + (duration + 29) mod 30"
    by (simp add: q_def)
  moreover have "(duration + 29) mod 30 < 30" by simp
  ultimately have a: "duration \<le> 30 * q" and b: "30 * q < duration + 30"
    by linarith+
  from a have "real duration \<le> real (30 * q)" by (rule of_nat_mono)
  then have ra: "real duration \<le> 30 * real q" by simp
  from b have "real (30 * q) < real (duration + 30)" by (simp only: of_nat_less_iff)
  then have rb: "30 * real q < real duration + 30" by simp
  have "\<lceil>real duration / 30\<rceil> = int q"
  proof (rule ceiling_unique)
    show "of_int (int q) - 1 < real duration / 30" using rb by simp
    show "real duration / 30 \<le> of_int (int q)" using ra by simp
  qed
  then show ?thesis by (simp add: slotsNeeded_def q_def)
qed

lemma occupiedLoop_eq:
  "occupiedLoop catalog startIndex needed i slots =
     slots @ take (needed - i) (drop (startIndex + i) (map slot_value catalog))"
proof (induction catalog startIndex needed i slots rule: occupiedLoop.induct)
  case (1 catalog startIndex needed i slots)
  show ?case
  proof (cases "i < needed \<and> startIndex + i < length catalog")
    case True
    then obtain k where k: "needed - i = Suc k" "needed - Suc i = k"
      by (metis Suc_diff_Suc)
    have "drop (startIndex + i) (map slot_value catalog)
          = slot_value (catalog ! (startIndex + i)) # drop (Suc (startIndex + i)) (map slot_value catalog)"
      using True by (simp add: Cons_nth_drop_Suc[symmetric])
    then show ?thesis
      using True 1 k by (subst occupiedLoop.simps) simp
  next
    case False
    then show ?thesis
      by (subst occupiedLoop.simps) auto
  qed
qed

lemma getOccupiedSlots_eq:
  assumes "findIndex (\<lambda>s. slot_value s = startSlot) TIME_SLOTS = Some i"
  shows "getOccupiedSlots startSlot duration
           = take (slotsNeeded duration) (drop i (map slot_value TIME_SLOTS))"
  using assms by (simp add: getOccupiedSlots_def occupiedLoop_eq)

lemma length_TIME_SLOTS: "length TIME_SLOTS = 13"
  by (simp add: TIME_SLOTS_def)

lemma distinct_TIME_SLOTS: "distinct (map slot_value TIME_SLOTS)"
  by (simp add: TIME_SLOTS_def)

text \<open>
  Claim C9, as the code has it. The last slot of the catalog is a recognized start slot,
  and a booking of 60 minutes that starts there occupies that one slot only.
\<close>

theorem last_slot_counterexample:
  "findIndex (\<lambda>s. slot_value s = ''18:00-18:30'') TIME_SLOTS = Some 12
   \<and> getOccupiedSlots ''18:00-18:30'' 60 = [''18:00-18:30'']
   \<and> length (getOccupiedSlots ''18:00-18:30'' 60) = 1"
proof -
  have f: "findIndex (\<lambda>s. slot_value s = ''18:00-18:30'') TIME_SLOTS = Some 12"
    by (simp add: TIME_SLOTS_def)
  show ?thesis
    using f by (simp add: getOccupiedSlots_eq[OF f] slotsNeeded_div TIME_SLOTS_def)
qed

text \<open>
  Claim C9, amended. For a start slot the catalog recognizes, at index \<open>i\<close>,
  \<open>getOccupiedSlots\<close> returns the first \<open>ceil (duration / 30)\<close> codes of the catalog from
  index \<open>i\<close> on, as many as the catalog still has: with 30 minutes the start slot alone,
  with 60 minutes the start slot and the catalog's next entry, except at the catalog's
  last slot, where it is the start slot alone.
\<close>

theorem occupied_slots_from_start:
  assumes "findIndex (\<lambda>s. slot_value s = startSlot) TIME_SLOTS = Some i"
  shows "getOccupiedSlots startSlot duration
           = take (slotsNeeded duration) (drop i (map slot_value TIME_SLOTS))
       \<and> length (getOccupiedSlots startSlot duration)
           = min (slotsNeeded duration) (length TIME_SLOTS - i)
       \<and> getOccupiedSlots startSlot 30 = [startSlot]
       \<and> getOccupiedSlots startSlot 60
           = (if startSlot = slot_value (last TIME_SLOTS) then [startSlot]
              else [startSlot, slot_value (TIME_SLOTS ! Suc i)])"
proof -
  note eq = getOccupiedSlots_eq[OF assms]
  from findIndex_Some[OF assms] have i: "i < length TIME_SLOTS"
    and v: "slot_value (TIME_SLOTS ! i) = startSlot" by simp_all
  have d: "drop i (map slot_value TIME_SLOTS) = startSlot # drop (Suc i) (map slot_value TIME_SLOTS)"
    using i v by (simp add: Cons_nth_drop_Suc[symmetric])
  have l: "(startSlot = slot_value (last TIME_SLOTS)) = (i = 12)"
  proof -
    have "last TIME_SLOTS = TIME_SLOTS ! 12" by (simp add: TIME_SLOTS_def)
    moreover have "(map slot_value TIME_SLOTS ! i = map slot_value TIME_SLOTS ! 12) = (i = 12)"
      by (rule nth_eq_iff_index_eq[OF distinct_TIME_SLOTS]) (simp_all add: length_TIME_SLOTS i[unfolded length_TIME_SLOTS])
    moreover have "map slot_value TIME_SLOTS ! i = slot_value (TIME_SLOTS ! i)"
      using i by (rule nth_map)
    moreover have "map slot_value TIME_SLOTS ! 12 = slot_value (TIME_SLOTS ! 12)"
      by (rule nth_map) (simp add: length_TIME_SLOTS)
    ultimately show ?thesis using v by simp
  qed
  have one: "getOccupiedSlots startSlot 30 = [startSlot]"
    by (simp add: eq[of 30] slotsNeeded_div d)
  have two: "getOccupiedSlots startSlot 60
           = (if startSlot = slot_value (last TIME_SLOTS) then [startSlot]
              else [startSlot, slot_value (TIME_SLOTS ! Suc i)])"
  proof (cases "i = 12")
    case True
    then have "drop (Suc i) (map slot_value TIME_SLOTS) = []"
      by (simp add: length_TIME_SLOTS)
    then have "getOccupiedSlots startSlot 60 = [startSlot]"
      by (simp add: eq[of 60] slotsNeeded_div d)
    then show ?thesis using l True by simp
  next
    case False
    then have s: "Suc i < length TIME_SLOTS" using i by (simp add: length_TIME_SLOTS)
    then have "drop (Suc i) (map slot_value TIME_SLOTS)
        = slot_value (TIME_SLOTS ! Suc i) # drop (Suc (Suc i)) (map slot_value TIME_SLOTS)"
      by (simp add: Cons_nth_drop_Suc[symmetric])
    then show ?thesis using l False
      by (simp add: eq[of 60] slotsNeeded_div d numeral_2_eq_2)
  qed
  show ?thesis using eq one two by simp
qed

theorem occupied_slots_from_start_witness:
  "findIndex (\<lambda>s. slot_value s = ''07:30-08:00'') TIME_SLOTS = Some 1
   \<and> getOccupiedSlots ''07:30-08:00'' 30 = [''07:30-08:00'']
   \<and> getOccupiedSlots ''07:30-08:00'' 60 = [''07:30-08:00'', ''08:00-08:30'']
   \<and> getOccupiedSlots ''07:30-08:00'' 90 = [''07:30-08:00'', ''08:00-08:30'', ''09:00-09:30'']"
proof -
  have f: "findIndex (\<lambda>s. slot_value s = ''07:30-08:00'') TIME_SLOTS = Some 1"
    by (simp add: TIME_SLOTS_def)
  show ?thesis
    using f occupied_slots_from_start[OF f, of 90]
    by (simp add: slotsNeeded_div TIME_SLOTS_def)
qed

section \<open>The recurrence expander: dates and validation\<close>

lemma parse_start: "parseFields ''2024-01-01'' = Some (2024, 1, 1)"
  by (simp add: parseFields_def Number_def isDigit_def)

lemma parse_end: "parseFields ''2024-01-15'' = Some (2024, 1, 15)"
  by (simp add: parseFields_def Number_def isDigit_def)

lemma recurringLoop_days:
  "recurringLoop wd (a * msPerDay) (b * msPerDay) dates =
     dates @ map (\<lambda>d. d * msPerDay + 43200000) (filter (\<lambda>d. (d + 4) mod 7 \<in> set wd) [a..b])"
proof (induction "nat (b + 1 - a)" arbitrary: a dates)
  case 0
  then have "b < a" by simp
  then have "\<not> a * msPerDay \<le> b * msPerDay" by (simp add: msPerDay_def)
  then show ?case using \<open>b < a\<close> by (subst recurringLoop.simps) simp
next
  case (Suc n)
  then have le: "a \<le> b" and n: "n = nat (b + 1 - (a + 1))" by simp_all
  have c: "a * msPerDay \<le> b * msPerDay" using le by (simp add: msPerDay_def)
  have nx: "nextDay (a * msPerDay) = (a + 1) * msPerDay"
    by (simp add: nextDay_def algebra_simps)
  have gd: "getDay (a * msPerDay) = (a + 4) mod 7"
    by (simp add: getDay_def msPerDay_def)
  have an: "atNoon (a * msPerDay) = a * msPerDay + 43200000"
    by (simp add: atNoon_def msPerDay_def)
  have up: "[a..b] = a # [a + 1..b]" using le by (rule upto_rec1)
  show ?case
    by (subst recurringLoop.simps) (simp add: c nx gd an up Suc.hyps(1)[OF n])
qed

lemma newDate_midnight: "newDate y m d 0 0 0 = MakeDay (if 0 \<le> y \<and> y \<le> 99 then 1900 + y else y) m d * msPerDay"
  by (simp add: newDate_def Let_def)

lemma january_dates:
  "generateRecurringDates january_form = map (\<lambda>d. newDate 2024 0 d 12 0 0) [1, 3, 8, 10, 15]"
proof -
  have s: "newDate 2024 (1 - 1) 1 0 0 0 = 19723 * msPerDay"
    and e: "newDate 2024 (1 - 1) 15 0 0 0 = 19737 * msPerDay"
    by (simp_all add: newDate_def MakeDay_def)
  have "generateRecurringDates january_form
        = map (\<lambda>d. d * msPerDay + 43200000) (filter (\<lambda>d. (d + 4) mod 7 \<in> set [1, 3]) [19723..19737])"
    by (simp only: generateRecurringDates_def january_form_def ScheduleForm.simps parse_start parse_end
        option.case prod.case s e recurringLoop_days append_Nil)
  also have "\<dots> = map (\<lambda>d. newDate 2024 0 d 12 0 0) [1, 3, 8, 10, 15]"
    by (simp add: newDate_def MakeDay_def msPerDay_def)
  finally show ?thesis .
qed

text \<open>
  On the values of date inputs the order of the strings is the order of the calendar:
  by year, then month, then day.
\<close>

lemma of_char_digitChar: "i < 10 \<Longrightarrow> (of_char (digitChar i) :: nat) = 48 + i"
  unfolding digitChar_def by (simp only: of_char_of) simp

lemma digitChar_less: "i < 10 \<Longrightarrow> j < 10 \<Longrightarrow> (digitChar i < digitChar j) = (i < j)"
  by (simp only: less_char_def of_char_digitChar) simp

lemma digitChar_eq: "i < 10 \<Longrightarrow> j < 10 \<Longrightarrow> (digitChar i = digitChar j) = (i = j)"
proof -
  assume i: "i < 10" and j: "j < 10"
  show ?thesis
  proof
    assume "digitChar i = digitChar j"
    then have "(of_char (digitChar i) :: nat) = of_char (digitChar j)" by (rule arg_cong)
    then have "48 + i = 48 + j" by (simp only: of_char_digitChar[OF i] of_char_digitChar[OF j])
    then show "i = j" by simp
  next
    assume "i = j"
    then show "digitChar i = digitChar j" by (rule arg_cong)
  qed
qed

lemma lex10_less: "((a::nat) div 10 < b div 10 \<or> (a div 10 = b div 10 \<and> a mod 10 < b mod 10)) = (a < b)"
proof -
  have "a = 10 * (a div 10) + a mod 10" "b = 10 * (b div 10) + b mod 10" by simp_all
  moreover have "a mod 10 < 10" "b mod 10 < 10" by simp_all
  ultimately show ?thesis by linarith
qed

lemma lex10_eq: "((a::nat) div 10 = b div 10 \<and> a mod 10 = b mod 10) = (a = b)"
  by (metis div_mult_mod_eq)

lemma lex100_less: "((a::nat) div 100 < b div 100 \<or> (a div 100 = b div 100 \<and> a mod 100 < b mod 100)) = (a < b)"
proof -
  have "a = 100 * (a div 100) + a mod 100" "b = 100 * (b div 100) + b mod 100" by simp_all
  moreover have "a mod 100 < 100" "b mod 100 < 100" by simp_all
  ultimately show ?thesis by linarith
qed

lemma lex100_eq: "((a::nat) div 100 = b div 100 \<and> a mod 100 = b mod 100) = (a = b)"
  by (metis div_mult_mod_eq)

lemma pad2_less: "a < 100 \<Longrightarrow> b < 100 \<Longrightarrow> (pad2 a < pad2 b) = (a < b)"
proof -
  assume a: "a < 100" and b: "b < 100"
  have d: "a div 10 mod 10 = a div 10" "b div 10 mod 10 = b div 10" using a b by simp_all
  have q: "a div 10 < 10" "b div 10 < 10" "a mod 10 < 10" "b mod 10 < 10" using a b by simp_all
  have "(pad2 a < pad2 b) = (a div 10 < b div 10 \<or> (a div 10 = b div 10 \<and> a mod 10 < b mod 10))"
    by (simp add: pad2_def d digitChar_less[OF q(1,2)] digitChar_eq[OF q(1,2)] digitChar_less[OF q(3,4)])
  then show ?thesis by (simp only: lex10_less)
qed

lemma pad2_eq: "a < 100 \<Longrightarrow> b < 100 \<Longrightarrow> (pad2 a = pad2 b) = (a = b)"
proof -
  assume a: "a < 100" and b: "b < 100"
  have d: "a div 10 mod 10 = a div 10" "b div 10 mod 10 = b div 10" using a b by simp_all
  have q: "a div 10 < 10" "b div 10 < 10" "a mod 10 < 10" "b mod 10 < 10" using a b by simp_all
  have "(pad2 a = pad2 b) = (a div 10 = b div 10 \<and> a mod 10 = b mod 10)"
    by (simp add: pad2_def d digitChar_eq[OF q(1,2)] digitChar_eq[OF q(3,4)])
  then show ?thesis by (simp only: lex10_eq)
qed

lemma append_less_same_length:
  "length xs = length ys \<Longrightarrow> (xs @ us < ys @ vs) = (xs < ys \<or> (xs = ys \<and> us < vs))"
  for xs ys :: "'a::linorder list"
  by (induction xs ys rule: list_induct2) auto

lemma append_le_same_length:
  "length xs = length ys \<Longrightarrow> (xs @ us \<le> ys @ vs) = (xs < ys \<or> (xs = ys \<and> us \<le> vs))"
  for xs ys :: "'a::linorder list"
  by (induction xs ys rule: list_induct2) auto

lemma length_pad2: "length (pad2 n) = 2"
  by (simp add: pad2_def)

lemma length_pad4: "length (pad4 n) = 4"
  by (simp add: pad4_def length_pad2)

lemma pad4_less: "a < 10000 \<Longrightarrow> b < 10000 \<Longrightarrow> (pad4 a < pad4 b) = (a < b)"
proof -
  assume a: "a < 10000" and b: "b < 10000"
  have h: "a div 100 < 100" "b div 100 < 100" "a mod 100 < 100" "b mod 100 < 100"
    using a b by simp_all
  have l: "length (pad2 (a div 100)) = length (pad2 (b div 100))" by (simp only: length_pad2)
  have "(pad4 a < pad4 b) = (a div 100 < b div 100 \<or> (a div 100 = b div 100 \<and> a mod 100 < b mod 100))"
    unfolding pad4_def
    by (simp only: append_less_same_length[OF l] pad2_less[OF h(1,2)] pad2_eq[OF h(1,2)] pad2_less[OF h(3,4)])
  then show ?thesis by (simp only: lex100_less)
qed

lemma pad4_eq: "a < 10000 \<Longrightarrow> b < 10000 \<Longrightarrow> (pad4 a = pad4 b) = (a = b)"
proof -
  assume a: "a < 10000" and b: "b < 10000"
  have h: "a div 100 < 100" "b div 100 < 100" "a mod 100 < 100" "b mod 100 < 100"
    using a b by simp_all
  have l: "length (pad2 (a div 100)) = length (pad2 (b div 100))" by (simp only: length_pad2)
  have "(pad4 a = pad4 b) = (a div 100 = b div 100 \<and> a mod 100 = b mod 100)"
    unfolding pad4_def
    by (simp only: append_eq_append_conv[OF disjI1[OF l]] pad2_eq[OF h(1,2)] pad2_eq[OF h(3,4)])
  then show ?thesis by (simp only: lex100_eq)
qed

lemma isoDate_le:
  assumes "y < 10000" and "y' < 10000" and "m < 100" and "m' < 100" and "d < 100" and "d' < 100"
  shows "(isoDate y' m' d' \<le> isoDate y m d)
          = (y' < y \<or> (y' = y \<and> (m' < m \<or> (m' = m \<and> d' \<le> d))))"
proof -
  have dd: "(pad2 d' \<le> pad2 d) = (d' \<le> d)"
    using pad2_less[OF assms(6,5)] pad2_eq[OF assms(6,5)] by (auto simp: le_less)
  have l4: "length (pad4 y') = length (pad4 y)" by (simp only: length_pad4)
  have l2: "length (pad2 m') = length (pad2 m)" by (simp only: length_pad2)
  have md: "(pad2 m' @ ''-'' @ pad2 d' \<le> pad2 m @ ''-'' @ pad2 d)
             = (m' < m \<or> (m' = m \<and> d' \<le> d))"
    by (simp add: append_le_same_length[OF l2] pad2_less[OF assms(4,3)] pad2_eq[OF assms(4,3)] dd)
  have "(isoDate y' m' d' \<le> isoDate y m d)
          = (pad4 y' < pad4 y \<or> (pad4 y' = pad4 y \<and>
               ''-'' @ pad2 m' @ ''-'' @ pad2 d' \<le> ''-'' @ pad2 m @ ''-'' @ pad2 d))"
    unfolding isoDate_def by (rule append_le_same_length[OF l4])
  also have "\<dots> = (y' < y \<or> (y' = y \<and> (m' < m \<or> (m' = m \<and> d' \<le> d))))"
    using md by (simp add: pad4_less[OF assms(2,1)] pad4_eq[OF assms(2,1)])
  finally show ?thesis .
qed

lemma isoDate_january: "isoDate 2024 1 1 = ''2024-01-01''" "isoDate 2024 1 15 = ''2024-01-15''"
  by code_simp+

text \<open>
  Claim C8, as the code has it. From 2024-01-01 to 2024-01-15 with Monday and Wednesday
  selected, the expander returns five dates, not six: the Mondays 1, 8 and 15 and the
  Wednesdays 3 and 10.
\<close>

theorem january_counterexample:
  "length (generateRecurringDates january_form) = 5
   \<and> length (generateRecurringDates january_form) \<noteq> 6"
  by (simp add: january_dates)

lemma validate_rejects:
  assumes "isRecurring form"
    and "recurrenceEndDate form \<le> form_scheduledDate form \<or> selectedWeekdays form = []"
  shows "\<not> validate form
       \<and> ((''endDate'', Data_final_obrigatoria) \<in> set (validationErrors form)
          \<or> (''endDate'', Data_final_deve_ser_posterior) \<in> set (validationErrors form)
          \<or> (''weekdays'', Selecione_um_dia_da_semana) \<in> set (validationErrors form))"
proof (cases "selectedWeekdays form = []")
  case True
  then show ?thesis using assms(1) by (simp add: validate_def validationErrors_def)
next
  case False
  then have le: "recurrenceEndDate form \<le> form_scheduledDate form" using assms(2) by simp
  show ?thesis
  proof (cases "recurrenceEndDate form = []")
    case True
    then show ?thesis using assms(1) by (simp add: validate_def validationErrors_def)
  next
    case False
    then show ?thesis using assms(1) le by (simp add: validate_def validationErrors_def)
  qed
qed

text \<open>
  Claim C8, amended. For 2024-01-01 to 2024-01-15 with Monday and Wednesday selected the
  expander returns the five dates 1, 3, 8, 10 and 15 January 2024 at 12:00, in ascending
  order. A recurring request whose end date is not after its start date (the two
  \<open>YYYY-MM-DD\<close> strings compared as strings, the empty end date included), or whose
  weekday set is empty, fails validation with an error under \<open>endDate\<close> or \<open>weekdays\<close>,
  and \<open>handleSubmit\<close> asks for no booking. On the values of date inputs for the years up
  to 9999 the order of the strings is the order of the calendar days.
\<close>

theorem recurrence_dates_and_rejection:
  "generateRecurringDates january_form = map (\<lambda>d. newDate 2024 0 d 12 0 0) [1, 3, 8, 10, 15]
   \<and> sorted_wrt (<) (generateRecurringDates january_form)
   \<and> (\<forall>form activePacks.
        isRecurring form
        \<and> (recurrenceEndDate form \<le> form_scheduledDate form \<or> selectedWeekdays form = [])
        \<longrightarrow> \<not> validate form
          \<and> ((''endDate'', Data_final_obrigatoria) \<in> set (validationErrors form)
             \<or> (''endDate'', Data_final_deve_ser_posterior) \<in> set (validationErrors form)
             \<or> (''weekdays'', Selecione_um_dia_da_semana) \<in> set (validationErrors form))
          \<and> handleSubmit activePacks form = [])
   \<and> (\<forall>y m d y' m' d'.
        y < 10000 \<and> y' < 10000 \<and> m < 100 \<and> m' < 100 \<and> d < 100 \<and> d' < 100
        \<longrightarrow> (isoDate y' m' d' \<le> isoDate y m d)
              = (y' < y \<or> (y' = y \<and> (m' < m \<or> (m' = m \<and> d' \<le> d)))))"
proof -
  have "sorted_wrt (<) (generateRecurringDates january_form)"
    by (simp add: january_dates newDate_def MakeDay_def msPerDay_def)
  moreover have "\<forall>form activePacks.
        isRecurring form
        \<and> (recurrenceEndDate form \<le> form_scheduledDate form \<or> selectedWeekdays form = [])
        \<longrightarrow> \<not> validate form
          \<and> ((''endDate'', Data_final_obrigatoria) \<in> set (validationErrors form)
             \<or> (''endDate'', Data_final_deve_ser_posterior) \<in> set (validationErrors form)
             \<or> (''weekdays'', Selecione_um_dia_da_semana) \<in> set (validationErrors form))
          \<and> handleSubmit activePacks form = []"
    using validate_rejects by (simp add: handleSubmit_def)
  moreover have "\<forall>y m d y' m' d'.
        y < 10000 \<and> y' < 10000 \<and> m < 100 \<and> m' < 100 \<and> d < 100 \<and> d' < 100
        \<longrightarrow> (isoDate y' m' d' \<le> isoDate y m d)
              = (y' < y \<or> (y' = y \<and> (m' < m \<or> (m' = m \<and> d' \<le> d))))"
    using isoDate_le by blast
  ultimately show ?thesis using january_dates by blast
qed

theorem recurrence_dates_and_rejection_witness:
  "isRecurring (january_form\<lparr>recurrenceEndDate := ''2024-01-01''\<rparr>)
   \<and> recurrenceEndDate (january_form\<lparr>recurrenceEndDate := ''2024-01-01''\<rparr>)
       \<le> form_scheduledDate (january_form\<lparr>recurrenceEndDate := ''2024-01-01''\<rparr>)
   \<and> \<not> validate (january_form\<lparr>recurrenceEndDate := ''2024-01-01''\<rparr>)
   \<and> validationErrors (january_form\<lparr>recurrenceEndDate := ''2024-01-01''\<rparr>)
       = [(''endDate'', Data_final_deve_ser_posterior)]
   \<and> handleSubmit [''p1''] (january_form\<lparr>recurrenceEndDate := ''2024-01-01''\<rparr>) = []
   \<and> validationErrors (january_form\<lparr>selectedWeekdays := []\<rparr>)
       = [(''weekdays'', Selecione_um_dia_da_semana)]
   \<and> handleSubmit [''p1''] (january_form\<lparr>selectedWeekdays := []\<rparr>) = []
   \<and> validate january_form
   \<and> length (handleSubmit [''p1''] january_form) = 5
   \<and> form_scheduledDate january_form = isoDate 2024 1 1
   \<and> recurrenceEndDate january_form = isoDate 2024 1 15
   \<and> \<not> isoDate 2024 1 15 \<le> isoDate 2024 1 1"
proof -
  let ?f = "january_form\<lparr>recurrenceEndDate := ''2024-01-01''\<rparr>"
  let ?g = "january_form\<lparr>selectedWeekdays := []\<rparr>"
  have h: "isRecurring ?f \<and> (recurrenceEndDate ?f \<le> form_scheduledDate ?f \<or> selectedWeekdays ?f = [])"
    "isRecurring ?g \<and> (recurrenceEndDate ?g \<le> form_scheduledDate ?g \<or> selectedWeekdays ?g = [])"
    by (simp_all add: january_form_def)
  have v: "validate january_form"
    by (simp add: validate_def validationErrors_def january_form_def)
  have e: "validationErrors ?f = [(''endDate'', Data_final_deve_ser_posterior)]"
    "validationErrors ?g = [(''weekdays'', Selecione_um_dia_da_semana)]"
    by (simp_all add: validationErrors_def january_form_def)
  from recurrence_dates_and_rejection
  have d: "generateRecurringDates january_form = map (\<lambda>d. newDate 2024 0 d 12 0 0) [1, 3, 8, 10, 15]"
    and r: "\<And>form activePacks. isRecurring form
        \<and> (recurrenceEndDate form \<le> form_scheduledDate form \<or> selectedWeekdays form = [])
        \<Longrightarrow> \<not> validate form \<and> handleSubmit activePacks form = []"
    by blast+
  have l: "length (handleSubmit [''p1''] january_form) = 5"
    using v d by (simp add: handleSubmit_def january_form_def)
  have c: "isRecurring ?f" "recurrenceEndDate ?f \<le> form_scheduledDate ?f"
    by (simp_all add: january_form_def)
  from recurrence_dates_and_rejection
  have "(isoDate 2024 1 15 \<le> isoDate 2024 1 1)
          = (2024 < (2024::nat) \<or> (2024 = (2024::nat) \<and> (1 < (1::nat) \<or> (1 = (1::nat) \<and> 15 \<le> (1::nat)))))"
    by (elim conjE allE[of _ 2024] allE[of _ 1] allE[of _ 15] impE) simp_all
  then have i: "\<not> isoDate 2024 1 15 \<le> isoDate 2024 1 1" by simp
  have j: "form_scheduledDate january_form = isoDate 2024 1 1"
    "recurrenceEndDate january_form = isoDate 2024 1 15"
    unfolding january_form_def isoDate_january by simp_all
  show ?thesis
    using r[OF h(1), of "[''p1'']"] r[OF h(2), of "[''p1'']"] c e v l i j by simp
qed

end
